theory Spec2Isabelle
  imports Main
begin

section \<open>Configuration\<close>

text \<open>
  The fields of the \<^verbatim>\<open>CONFIG\<close> object of \<^verbatim>\<open>referral-rewards-processor.js\<close>
  that the retry executor and the report poller read. The functions below take the
  configuration as an argument; \<open>CONFIG\<close> is the object the source declares.
\<close>

record config =
  MAX_RETRIES :: nat
  INITIAL_RETRY_DELAY :: nat
  MAX_RETRY_DELAY :: nat
  POLL_INTERVAL_MS :: nat
  POLL_MAX_ATTEMPTS :: nat

definition CONFIG :: config where
  "CONFIG = \<lparr>MAX_RETRIES = 3, INITIAL_RETRY_DELAY = 1000, MAX_RETRY_DELAY = 10000,
             POLL_INTERVAL_MS = 3000, POLL_MAX_ATTEMPTS = 100\<rparr>"

section \<open>Errors and outbound requests\<close>

datatype error =
  AxiosError string          \<comment> \<open>axios rejected: network error, timeout, or a status of 500 and above\<close>
| HttpError nat              \<comment> \<open>\<^verbatim>\<open>new Error(`HTTP ${response.status}: ...`)\<close>\<close>
| TypeError                  \<comment> \<open>a property read on \<^verbatim>\<open>undefined\<close>\<close>
| ReportFailedOnServer       \<comment> \<open>\<^verbatim>\<open>new Error('Referral report failed on server')\<close>\<close>
| PollingTimeout             \<comment> \<open>\<^verbatim>\<open>new Error('Referral report polling timeout')\<close>\<close>

text \<open>What one \<^verbatim>\<open>await axios({...})\<close> does: it rejects, or it resolves to a response
  with a status and a decoded body.\<close>

datatype 'a attempt = Rejected string | Responded nat 'a

text \<open>The body of the \<^verbatim>\<open>try\<close> block of \<^verbatim>\<open>sendRequestWithRetry\<close>: the error it throws
  (\<open>Inl\<close>) or the \<^verbatim>\<open>response.data\<close> it returns (\<open>Inr\<close>).\<close>

fun attempt_result :: "'a attempt \<Rightarrow> error + 'a" where
  "attempt_result (Rejected msg) = Inl (AxiosError msg)"
| "attempt_result (Responded st data) = (if st \<ge> 400 then Inl (HttpError st) else Inr data)"

definition attempt_failed :: "'a attempt \<Rightarrow> bool" where
  "attempt_failed a = (case attempt_result a of Inl _ \<Rightarrow> True | Inr _ \<Rightarrow> False)"

definition delayTime :: "config \<Rightarrow> nat \<Rightarrow> nat" where
  "delayTime cfg attempt =
     min (INITIAL_RETRY_DELAY cfg * 2 ^ (attempt - 1)) (MAX_RETRY_DELAY cfg)"

text \<open>
  The \<^verbatim>\<open>for (let attempt = 1; attempt <= CONFIG.MAX_RETRIES; attempt++)\<close> loop of
  \<^verbatim>\<open>sendRequestWithRetry\<close>, from a given attempt number on. \<open>net k\<close> is what the
  network does at attempt \<open>k\<close>; \<open>waited\<close> accumulates the arguments of \<^verbatim>\<open>delay\<close>.
  The result is the thrown error (\<open>Inl\<close>), the returned body (\<open>Inr (Some d)\<close>) or, when
  the loop ends without running its body, JavaScript's \<^verbatim>\<open>undefined\<close> (\<open>Inr None\<close>),
  together with the total time waited.
\<close>

function retry_from :: "config \<Rightarrow> (nat \<Rightarrow> 'a attempt) \<Rightarrow> nat \<Rightarrow> nat \<Rightarrow> (error + 'a option) \<times> nat" where
  "retry_from cfg net attempt waited =
     (if attempt \<le> MAX_RETRIES cfg then
        (case attempt_result (net attempt) of
           Inr data \<Rightarrow> (Inr (Some data), waited)
         | Inl err \<Rightarrow>
             if attempt = MAX_RETRIES cfg then (Inl err, waited)
             else retry_from cfg net (attempt + 1) (waited + delayTime cfg attempt))
      else (Inr None, waited))"
  by pat_completeness auto
termination
  by (relation "measure (\<lambda>(cfg, net, attempt, waited). MAX_RETRIES cfg + 1 - attempt)") auto

declare retry_from.simps [simp del]

definition sendRequestWithRetry :: "config \<Rightarrow> (nat \<Rightarrow> 'a attempt) \<Rightarrow> (error + 'a option) \<times> nat" where
  "sendRequestWithRetry cfg net = retry_from cfg net 1 0"

text \<open>The total wait the specification states for \<open>N\<close> consecutive failures:
  the sum over \<open>k = 1..N-1\<close> of \<open>min(base * 2^(k-1), cap)\<close>.\<close>

definition spec_total_wait :: "config \<Rightarrow> nat \<Rightarrow> nat" where
  "spec_total_wait cfg N = (\<Sum>k = 1..N - 1. min (INITIAL_RETRY_DELAY cfg * 2 ^ (k - 1)) (MAX_RETRY_DELAY cfg))"

text \<open>A network that fails the first attempt and answers the second.\<close>

definition fails_once :: "nat \<Rightarrow> unit attempt" where
  "fails_once k = (if k \<le> 1 then Rejected ''timeout'' else Responded 200 ())"

section \<open>Report polling\<close>

text \<open>The body of a report-status response: \<^verbatim>\<open>response.status\<close>,
  \<^verbatim>\<open>response.reportData?.items\<close> and \<^verbatim>\<open>response.items\<close> (\<open>None\<close> where the
  field is absent).\<close>

record 'i report_response =
  status :: string
  reportData_items :: "'i list option"
  items :: "'i list option"

text \<open>\<^verbatim>\<open>response.reportData?.items || response.items || []\<close>: an array is truthy, also
  when it is empty.\<close>

definition extract_items :: "'i report_response \<Rightarrow> 'i list" where
  "extract_items r =
     (case reportData_items r of
        Some xs \<Rightarrow> xs
      | None \<Rightarrow> (case items r of Some ys \<Rightarrow> ys | None \<Rightarrow> []))"

text \<open>How the \<^verbatim>\<open>try\<close> block of one iteration of \<^verbatim>\<open>pollReferralReport\<close> ends.\<close>

datatype 'i try_end = Returns "'i list" | Throws error | FallsThrough

fun poll_try :: "(error + 'i report_response option) \<Rightarrow> 'i try_end" where
  "poll_try (Inl err) = Throws err"
| "poll_try (Inr None) = Throws TypeError"
| "poll_try (Inr (Some response)) =
     (if status response = ''completed'' then Returns (extract_items response)
      else if status response = ''failed'' then Throws ReportFailedOnServer
      else FallsThrough)"

text \<open>
  The \<^verbatim>\<open>for (let attempt = 0; attempt < CONFIG.POLL_MAX_ATTEMPTS; attempt++)\<close> loop of
  \<^verbatim>\<open>pollReferralReport\<close>. \<open>srv a\<close> is the network seen by the status query of
  iteration \<open>a\<close>; \<open>polls\<close> counts the status queries issued. An error thrown inside
  the \<^verbatim>\<open>try\<close> block is caught by the \<^verbatim>\<open>catch\<close> of the same iteration, which rethrows
  it only when \<^verbatim>\<open>attempt === CONFIG.POLL_MAX_ATTEMPTS - 1\<close>.
\<close>

function poll_from :: "config \<Rightarrow> (nat \<Rightarrow> nat \<Rightarrow> 'i report_response attempt) \<Rightarrow> nat \<Rightarrow> nat \<Rightarrow> (error + 'i list) \<times> nat" where
  "poll_from cfg srv attempt polls =
     (if attempt < POLL_MAX_ATTEMPTS cfg then
        (case poll_try (fst (sendRequestWithRetry cfg (srv attempt))) of
           Returns xs \<Rightarrow> (Inr xs, polls + 1)
         | Throws err \<Rightarrow>
             if attempt = POLL_MAX_ATTEMPTS cfg - 1 then (Inl err, polls + 1)
             else poll_from cfg srv (attempt + 1) (polls + 1)
         | FallsThrough \<Rightarrow> poll_from cfg srv (attempt + 1) (polls + 1))
      else (Inl PollingTimeout, polls))"
  by pat_completeness auto
termination
  by (relation "measure (\<lambda>(cfg, srv, attempt, polls). POLL_MAX_ATTEMPTS cfg - attempt)") auto

declare poll_from.simps [simp del]

definition pollReferralReport :: "config \<Rightarrow> (nat \<Rightarrow> nat \<Rightarrow> 'i report_response attempt) \<Rightarrow> (error + 'i list) \<times> nat" where
  "pollReferralReport cfg srv = poll_from cfg srv 0 0"

text \<open>One status poll: the outcome of the status query of iteration \<open>a\<close>.\<close>

definition status_poll :: "config \<Rightarrow> (nat \<Rightarrow> nat \<Rightarrow> 'i report_response attempt) \<Rightarrow> nat \<Rightarrow> error + 'i report_response option" where
  "status_poll cfg srv a = fst (sendRequestWithRetry cfg (srv a))"

definition answers :: "string \<Rightarrow> 'i list \<Rightarrow> nat \<Rightarrow> 'i report_response attempt" where
  "answers st xs k = Responded 200 \<lparr>status = st, reportData_items = Some xs, items = None\<rparr>"

text \<open>A server that reports \<^verbatim>\<open>failed\<close> at the first poll and \<^verbatim>\<open>completed\<close> afterwards,
  and one that reports \<^verbatim>\<open>failed\<close> at every poll.\<close>

definition failed_then_completed :: "nat \<Rightarrow> nat \<Rightarrow> nat report_response attempt" where
  "failed_then_completed a = (if a = 0 then answers ''failed'' [] else answers ''completed'' [7])"

definition always_failed :: "nat \<Rightarrow> nat \<Rightarrow> nat report_response attempt" where
  "always_failed a = answers ''failed'' []"

definition always_pending :: "nat \<Rightarrow> nat \<Rightarrow> nat report_response attempt" where
  "always_pending a = answers ''pending'' []"

section \<open>Location lookup\<close>

text \<open>
  A JavaScript value that \<^verbatim>\<open>CONFIG.LOCATIONS[locationName]\<close> can evaluate to: a number
  of the table, or a member that the object literal inherits from \<^verbatim>\<open>Object.prototype\<close>
  (a function, or for \<^verbatim>\<open>__proto__\<close> the prototype object itself). \<open>None\<close> stands for
  \<^verbatim>\<open>undefined\<close>.
\<close>

datatype jsval = JNum int | JInherited string

fun truthy :: "jsval \<Rightarrow> bool" where
  "truthy (JNum n) = (n \<noteq> 0)"
| "truthy (JInherited name) = True"

text \<open>\<^verbatim>\<open>a || b\<close> on values that may be \<^verbatim>\<open>undefined\<close>.\<close>

definition js_or :: "jsval option \<Rightarrow> jsval option \<Rightarrow> jsval option" where
  "js_or a b = (case a of None \<Rightarrow> b | Some v \<Rightarrow> if truthy v then Some v else b)"

text \<open>\<^verbatim>\<open>n || d\<close> on a number that may be absent: \<open>0\<close> is falsy.\<close>

definition js_or_num :: "int option \<Rightarrow> int \<Rightarrow> int" where
  "js_or_num v d = (case v of None \<Rightarrow> d | Some n \<Rightarrow> if n = 0 then d else n)"

definition LOCATIONS :: "string \<rightharpoonup> int" where
  "LOCATIONS = [''Kwality House, Kemps Corner'' \<mapsto> 9030,
                ''Supreme HQ, Bandra'' \<mapsto> 29821,
                ''Kenkere House'' \<mapsto> 22116]"

text \<open>The property names every object literal inherits from \<^verbatim>\<open>Object.prototype\<close>.\<close>

definition Object_prototype_names :: "string list" where
  "Object_prototype_names =
     [''constructor'', ''__proto__'', ''hasOwnProperty'', ''isPrototypeOf'',
      ''propertyIsEnumerable'', ''toLocaleString'', ''toString'', ''valueOf'',
      ''__defineGetter__'', ''__defineSetter__'', ''__lookupGetter__'', ''__lookupSetter__'']"

text \<open>The property read \<^verbatim>\<open>CONFIG.LOCATIONS[key]\<close>: own properties first, then the
  prototype chain.\<close>

definition LOCATIONS_get :: "string \<Rightarrow> jsval option" where
  "LOCATIONS_get key =
     (case LOCATIONS key of
        Some n \<Rightarrow> Some (JNum n)
      | None \<Rightarrow> if key \<in> set Object_prototype_names then Some (JInherited key) else None)"

text \<open>The property key of a \<^verbatim>\<open>homeLocation\<close>: the string itself, and \<^verbatim>\<open>"undefined"\<close>
  when the field is absent.\<close>

definition property_key :: "string option \<Rightarrow> string" where
  "property_key name = (case name of None \<Rightarrow> ''undefined'' | Some k \<Rightarrow> k)"

definition getLocationIdFromName :: "string option \<Rightarrow> jsval option" where
  "getLocationIdFromName locationName =
     js_or (LOCATIONS_get (property_key locationName))
           (LOCATIONS_get ''Kwality House, Kemps Corner'')"

section \<open>Candidates, referral records and the ledger\<close>

record customer =
  memberId :: int
  email :: string
  firstName :: string
  lastName :: string

text \<open>An item of the referral report. Visits, spend and home location may be absent.\<close>

record referral =
  givingMemberId :: int
  givingMemberFirstName :: string
  givingMemberLastName :: string
  receivingMemberId :: int
  receivingMemberEmail :: string
  receivingMemberFirstName :: string
  receivingMemberLastName :: string
  receivingMemberVisits :: "int option"
  receivingMemberTotalSpend :: "int option"
  homeLocation :: "string option"

text \<open>The \<^verbatim>\<open>referralRecord\<close> object that the loop hands to \<^verbatim>\<open>updateSupabaseRecord\<close>.\<close>

record referral_data = referral +
  givingMemberRewarded :: bool

text \<open>
  A row of the table \<^verbatim>\<open>referral_rewards\<close>: the columns the program writes and reads,
  and \<^verbatim>\<open>processing_status\<close>, which the trigger \<^verbatim>\<open>update_qualification_status\<close> sets.
  The timestamps, the comment columns and the columns that always hold the same constant
  are left out.
\<close>

record ledger_row = referral_data +
  processing_status :: string

text \<open>The table under its constraint \<^verbatim>\<open>UNIQUE ("givingMemberId", "receivingMemberId")\<close>.\<close>

type_synonym ledger = "(int \<times> int) \<rightharpoonup> ledger_row"

text \<open>The part of the trigger \<^verbatim>\<open>update_qualification_status\<close> (before insert or update)
  that sets \<^verbatim>\<open>processing_status\<close>; a NULL visit count takes the \<^verbatim>\<open>ELSE\<close> branch.\<close>

definition update_qualification_status :: "ledger_row \<Rightarrow> ledger_row" where
  "update_qualification_status new =
     (if (case receivingMemberVisits new of None \<Rightarrow> False | Some v \<Rightarrow> v \<ge> 1)
      then new\<lparr>processing_status := ''qualified''\<rparr>
      else new\<lparr>processing_status := ''not_qualified''\<rparr>)"

text \<open>
  What the store does to one call, beyond its normal behaviour: nothing, an answer with
  \<^verbatim>\<open>error\<close> set (carrying \<^verbatim>\<open>error.code\<close>), or a thrown exception.
\<close>

datatype fault = NoFault | ErrorReply string | Exception

datatype select_outcome =
  SelectThrows
| SelectResult "ledger_row list option" "string option"   \<comment> \<open>\<^verbatim>\<open>{ data, error }\<close>\<close>

definition supabase_select :: "ledger \<Rightarrow> fault \<Rightarrow> int \<Rightarrow> int \<Rightarrow> select_outcome" where
  "supabase_select L f g r =
     (case f of
        Exception \<Rightarrow> SelectThrows
      | ErrorReply code \<Rightarrow> SelectResult None (Some code)
      | NoFault \<Rightarrow> SelectResult (Some (case L (g, r) of None \<Rightarrow> [] | Some row \<Rightarrow> [row])) None)"

text \<open>The object \<^verbatim>\<open>checkIfAlreadyProcessed\<close> returns; \<open>row_status\<close> is its field
  \<^verbatim>\<open>status\<close>.\<close>

record process_status =
  processed :: bool
  rewarded :: bool
  row_status :: "string option"

fun checkIfAlreadyProcessed :: "select_outcome \<Rightarrow> process_status" where
  "checkIfAlreadyProcessed SelectThrows =
     \<lparr>processed = False, rewarded = False, row_status = None\<rparr>"
| "checkIfAlreadyProcessed (SelectResult data (Some err)) =
     \<lparr>processed = False, rewarded = False, row_status = None\<rparr>"
| "checkIfAlreadyProcessed (SelectResult data None) =
     (let existingRecord = (case data of Some (x # xs) \<Rightarrow> Some x | _ \<Rightarrow> None)
      in \<lparr>processed = (existingRecord \<noteq> None),
          rewarded = (case existingRecord of None \<Rightarrow> False | Some row \<Rightarrow> givingMemberRewarded row),
          row_status = map_option processing_status existingRecord\<rparr>)"

text \<open>\<^verbatim>\<open>rewardGivingMember\<close>: one pay-cart request through the retry executor; any error
  is caught and becomes \<^verbatim>\<open>false\<close>.\<close>

definition rewardGivingMember :: "config \<Rightarrow> (nat \<Rightarrow> unit attempt) \<Rightarrow> int \<Rightarrow> jsval option \<Rightarrow> bool" where
  "rewardGivingMember cfg net givingMember homeLocationId =
     (case fst (sendRequestWithRetry cfg net) of Inl err \<Rightarrow> False | Inr data \<Rightarrow> True)"

datatype insert_outcome = InsertOk | InsertError string | InsertThrows

datatype update_outcome = UpdateOk | UpdateError | UpdateThrows

text \<open>\<^verbatim>\<open>.insert(record)\<close>: the uniqueness constraint answers with code 23505 when the
  pair already has a row.\<close>

definition supabase_insert :: "ledger \<Rightarrow> fault \<Rightarrow> ledger_row \<Rightarrow> insert_outcome \<times> ledger" where
  "supabase_insert L f row =
     (case f of
        Exception \<Rightarrow> (InsertThrows, L)
      | ErrorReply code \<Rightarrow> (InsertError code, L)
      | NoFault \<Rightarrow>
          (let key = (givingMemberId row, receivingMemberId row)
           in if L key = None then (InsertOk, L(key \<mapsto> update_qualification_status row))
              else (InsertError ''23505'', L)))"

text \<open>\<^verbatim>\<open>.update({updatedAt, receivingMemberTotalSpend, receivingMemberVisits,
  givingMemberRewarded}).eq(...).eq(...)\<close>: no row matching is not an error.\<close>

definition supabase_update :: "ledger \<Rightarrow> fault \<Rightarrow> ledger_row \<Rightarrow> update_outcome \<times> ledger" where
  "supabase_update L f record =
     (case f of
        Exception \<Rightarrow> (UpdateThrows, L)
      | ErrorReply code \<Rightarrow> (UpdateError, L)
      | NoFault \<Rightarrow>
          (let key = (givingMemberId record, receivingMemberId record)
           in case L key of
                None \<Rightarrow> (UpdateOk, L)
              | Some old \<Rightarrow>
                  (UpdateOk, L(key \<mapsto> update_qualification_status
                     (old\<lparr>receivingMemberTotalSpend := receivingMemberTotalSpend record,
                          receivingMemberVisits := receivingMemberVisits record,
                          givingMemberRewarded := givingMemberRewarded record\<rparr>)))))"

text \<open>The store's faults and the payment network for one referral record.\<close>

record env =
  select_fault :: fault
  payment_net :: "nat \<Rightarrow> unit attempt"
  insert_fault :: fault
  update_fault :: fault

definition updateSupabaseRecord :: "ledger \<Rightarrow> env \<Rightarrow> referral_data \<Rightarrow> bool \<times> ledger" where
  "updateSupabaseRecord L e referralData =
     (let record = \<lparr>givingMemberId = givingMemberId referralData,
                    givingMemberFirstName = givingMemberFirstName referralData,
                    givingMemberLastName = givingMemberLastName referralData,
                    receivingMemberId = receivingMemberId referralData,
                    receivingMemberEmail = receivingMemberEmail referralData,
                    receivingMemberFirstName = receivingMemberFirstName referralData,
                    receivingMemberLastName = receivingMemberLastName referralData,
                    receivingMemberVisits = receivingMemberVisits referralData,
                    receivingMemberTotalSpend = Some (js_or_num (receivingMemberTotalSpend referralData) 0),
                    homeLocation = homeLocation referralData,
                    givingMemberRewarded = givingMemberRewarded referralData,
                    processing_status = ''pending''\<rparr>
      in case supabase_insert L (insert_fault e) record of
           (InsertThrows, L') \<Rightarrow> (False, L')
         | (InsertOk, L') \<Rightarrow> (True, L')
         | (InsertError code, L') \<Rightarrow>
             if code = ''23505'' then
               (case supabase_update L' (update_fault e) record of
                  (UpdateOk, L'') \<Rightarrow> (True, L'')
                | (UpdateError, L'') \<Rightarrow> (False, L'')
                | (UpdateThrows, L'') \<Rightarrow> (False, L''))
             else (False, L'))"

section \<open>The processing loop\<close>

text \<open>
  What the loop does to the outside world, in order. Every event carries the number of
  the referral record it belongs to (the value of \<^verbatim>\<open>processedCount\<close> while the record
  is processed, starting at 1).
\<close>

datatype event =
  LedgerLookup nat int int            \<comment> \<open>\<^verbatim>\<open>checkIfAlreadyProcessed(givingMemberId, receivingMemberId)\<close>\<close>
| IssuerCall nat int "jsval option"   \<comment> \<open>\<^verbatim>\<open>rewardGivingMember(givingMemberId, homeLocationId)\<close>\<close>
| LedgerCommit nat referral_data      \<comment> \<open>\<^verbatim>\<open>updateSupabaseRecord(referralRecord)\<close>\<close>

fun tag :: "event \<Rightarrow> nat" where
  "tag (LedgerLookup n g r) = n"
| "tag (IssuerCall n g loc) = n"
| "tag (LedgerCommit n d) = n"

fun is_issuer_call :: "event \<Rightarrow> bool" where
  "is_issuer_call (IssuerCall n g loc) = True"
| "is_issuer_call e = False"

record run_state =
  ledger :: ledger
  processedCount :: nat
  rewardedCount :: nat
  skippedCount :: nat
  events :: "event list"

definition emit :: "event \<Rightarrow> run_state \<Rightarrow> run_state" where
  "emit ev s = s\<lparr>events := events s @ [ev]\<rparr>"

text \<open>\<^verbatim>\<open>customers.forEach(customer => customerMap.set(customer.memberId, customer))\<close>.\<close>

definition customerMap_of :: "customer list \<Rightarrow> (int \<rightharpoonup> customer)" where
  "customerMap_of customers = fold (\<lambda>c m. m(memberId c \<mapsto> c)) customers Map.empty"

text \<open>The object literal \<^verbatim>\<open>referralRecord\<close> that the loop body prepares for the
  ledger: names and email of the receiving member come from the customer list, the rest
  from the report item.\<close>

definition make_referralRecord :: "referral \<Rightarrow> customer \<Rightarrow> bool \<Rightarrow> referral_data" where
  "make_referralRecord referral receivingMember rewardSuccess =
     \<lparr>givingMemberId = givingMemberId referral,
      givingMemberFirstName = givingMemberFirstName referral,
      givingMemberLastName = givingMemberLastName referral,
      receivingMemberId = receivingMemberId referral,
      receivingMemberEmail = email receivingMember,
      receivingMemberFirstName = firstName receivingMember,
      receivingMemberLastName = lastName receivingMember,
      receivingMemberVisits = Some (js_or_num (receivingMemberVisits referral) 1),
      receivingMemberTotalSpend = Some (js_or_num (receivingMemberTotalSpend referral) 0),
      homeLocation = homeLocation referral,
      givingMemberRewarded = rewardSuccess\<rparr>"

text \<open>The body of \<^verbatim>\<open>for (const referral of referralData)\<close>.\<close>

definition process_referral :: "config \<Rightarrow> (int \<rightharpoonup> customer) \<Rightarrow> env \<Rightarrow> referral \<Rightarrow> run_state \<Rightarrow> run_state" where
  "process_referral cfg customerMap e referral s0 =
     (let s1 = s0\<lparr>processedCount := processedCount s0 + 1\<rparr>;
          n = processedCount s1
      in case customerMap (receivingMemberId referral) of
           None \<Rightarrow> s1
         | Some receivingMember \<Rightarrow>
             (let isQualified = (js_or_num (receivingMemberVisits referral) 0 \<ge> 1);
                  processStatus = checkIfAlreadyProcessed
                    (supabase_select (ledger s1) (select_fault e)
                       (givingMemberId referral) (receivingMemberId referral));
                  s2 = emit (LedgerLookup n (givingMemberId referral) (receivingMemberId referral)) s1
              in if processed processStatus then s2\<lparr>skippedCount := skippedCount s2 + 1\<rparr>
                 else
                   (let (rewardSuccess, s3) =
                          (if isQualified then
                             (let homeLocationId = getLocationIdFromName (homeLocation referral)
                              in (rewardGivingMember cfg (payment_net e) (givingMemberId referral) homeLocationId,
                                  emit (IssuerCall n (givingMemberId referral) homeLocationId) s2))
                           else (False, s2));
                        referralRecord = make_referralRecord referral receivingMember rewardSuccess;
                        (supabaseSuccess, L') = updateSupabaseRecord (ledger s3) e referralRecord;
                        s4 = (emit (LedgerCommit n referralRecord) s3)\<lparr>ledger := L'\<rparr>
                    in if rewardSuccess then s4\<lparr>rewardedCount := rewardedCount s4 + 1\<rparr> else s4)))"

text \<open>The loop over the report's items, in order; \<open>envs n\<close> is the environment met by
  record number \<open>n\<close>.\<close>

fun process_referrals :: "config \<Rightarrow> (int \<rightharpoonup> customer) \<Rightarrow> (nat \<Rightarrow> env) \<Rightarrow> referral list \<Rightarrow> run_state \<Rightarrow> run_state" where
  "process_referrals cfg customerMap envs [] s = s"
| "process_referrals cfg customerMap envs (referral # rest) s =
     process_referrals cfg customerMap envs rest
       (process_referral cfg customerMap (envs (processedCount s + 1)) referral s)"

definition start :: "ledger \<Rightarrow> run_state" where
  "start L = \<lparr>ledger = L, processedCount = 0, rewardedCount = 0, skippedCount = 0, events = []\<rparr>"

text \<open>Step 3 of \<^verbatim>\<open>processReferralRewards\<close>: the counters start at zero, the lookup map is
  built from the fetched customers, and the report's items are processed one by one.
  (With no customer or no report item the source returns before this step, having
  looked nothing up, issued nothing and written nothing.)\<close>

definition run_step3 :: "config \<Rightarrow> customer list \<Rightarrow> referral list \<Rightarrow> (nat \<Rightarrow> env) \<Rightarrow> ledger \<Rightarrow> run_state" where
  "run_step3 cfg customers referralData envs L =
     process_referrals cfg (customerMap_of customers) envs referralData (start L)"

text \<open>The state in which the loop reaches the record at position \<open>i\<close> (from 0), and the
  events of the whole run that belong to that record.\<close>

definition state_before :: "config \<Rightarrow> customer list \<Rightarrow> referral list \<Rightarrow> (nat \<Rightarrow> env) \<Rightarrow> ledger \<Rightarrow> nat \<Rightarrow> run_state" where
  "state_before cfg customers referralData envs L i =
     run_step3 cfg customers (take i referralData) envs L"

definition record_events :: "config \<Rightarrow> customer list \<Rightarrow> referral list \<Rightarrow> (nat \<Rightarrow> env) \<Rightarrow> ledger \<Rightarrow> nat \<Rightarrow> event list" where
  "record_events cfg customers referralData envs L i =
     filter (\<lambda>ev. tag ev = Suc i) (events (run_step3 cfg customers referralData envs L))"

section \<open>Concrete inputs\<close>

text \<open>Candidates, report items, environments and a stored row for the worked examples:
  the candidates \<open>{101, 102, 103}\<close> and the report rows of the specification's scenario.\<close>

definition cust :: "int \<Rightarrow> customer" where
  "cust m = \<lparr>memberId = m, email = ''member@example.com'', firstName = ''Ada'', lastName = ''Rao''\<rparr>"

definition candidates :: "customer list" where
  "candidates = [cust 101, cust 102, cust 103]"

definition report_item :: "int \<Rightarrow> int \<Rightarrow> int option \<Rightarrow> int option \<Rightarrow> string option \<Rightarrow> referral" where
  "report_item g r visits spend loc =
     \<lparr>givingMemberId = g, givingMemberFirstName = ''Gita'', givingMemberLastName = ''Shah'',
      receivingMemberId = r, receivingMemberEmail = ''member@example.com'',
      receivingMemberFirstName = ''Ada'', receivingMemberLastName = ''Rao'',
      receivingMemberVisits = visits, receivingMemberTotalSpend = spend, homeLocation = loc\<rparr>"

definition scenario_report :: "referral list" where
  "scenario_report =
     [report_item 1 102 (Some 2) (Some 1500) (Some ''Supreme HQ, Bandra''),
      report_item 2 104 (Some 5) (Some 4000) (Some ''Kenkere House''),
      report_item 3 103 (Some 0) None (Some ''Kenkere House'')]"

definition no_faults :: env where
  "no_faults = \<lparr>select_fault = NoFault, payment_net = (\<lambda>k. Responded 200 ()),
                insert_fault = NoFault, update_fault = NoFault\<rparr>"

definition calm :: "nat \<Rightarrow> env" where
  "calm n = no_faults"

definition always_rejects :: "nat \<Rightarrow> unit attempt" where
  "always_rejects k = Rejected ''timeout''"

text \<open>A row left by an earlier run for the pair \<open>(1, 102)\<close>, with a given reward flag.\<close>

definition stored_row :: "bool \<Rightarrow> ledger_row" where
  "stored_row flag =
     \<lparr>givingMemberId = 1, givingMemberFirstName = ''Gita'', givingMemberLastName = ''Shah'',
      receivingMemberId = 102, receivingMemberEmail = ''member@example.com'',
      receivingMemberFirstName = ''Ada'', receivingMemberLastName = ''Rao'',
      receivingMemberVisits = Some 1, receivingMemberTotalSpend = Some 0,
      homeLocation = Some ''Supreme HQ, Bandra'',
      givingMemberRewarded = flag, processing_status = ''qualified''\<rparr>"

definition unrewarded_ledger :: ledger where
  "unrewarded_ledger = [(1, 102) \<mapsto> stored_row False]"

definition rewarded_ledger :: ledger where
  "rewarded_ledger = [(1, 102) \<mapsto> stored_row True]"

text \<open>A later sighting of the pair \<open>(1, 102)\<close> with more visits and spend, a report item
  whose home location is the name of an inherited property, and a store whose point
  lookup answers with an error.\<close>

definition resighting :: "referral list" where
  "resighting = [report_item 1 102 (Some 3) (Some 500) (Some ''Supreme HQ, Bandra'')]"

definition inherited_name_report :: "referral list" where
  "inherited_name_report = [report_item 1 102 (Some 2) None (Some ''constructor'')]"

definition lookup_down :: env where
  "lookup_down = \<lparr>select_fault = ErrorReply ''PGRST301'', payment_net = (\<lambda>k. Responded 200 ()),
                  insert_fault = NoFault, update_fault = NoFault\<rparr>"

section \<open>The retry executor: unfolding the loop\<close>

lemma retry_from_success:
  assumes "a \<le> MAX_RETRIES cfg" "attempt_result (net a) = Inr d"
  shows "retry_from cfg net a w = (Inr (Some d), w)"
  using assms by (subst retry_from.simps) simp

lemma retry_from_last_failure:
  assumes "a = MAX_RETRIES cfg" "attempt_result (net a) = Inl err"
  shows "retry_from cfg net a w = (Inl err, w)"
  using assms by (subst retry_from.simps) simp

lemma retry_from_failure:
  assumes "a < MAX_RETRIES cfg" "attempt_result (net a) = Inl err"
  shows "retry_from cfg net a w = retry_from cfg net (Suc a) (w + delayTime cfg a)"
  using assms by (subst retry_from.simps) simp

lemma attempt_failed_iff: "attempt_failed x \<longleftrightarrow> (\<exists>err. attempt_result x = Inl err)"
  by (auto simp: attempt_failed_def split: sum.splits)

lemma retry_from_failures:
  assumes "\<forall>k. a \<le> k \<and> k < a + m \<longrightarrow> attempt_failed (net k)" "a + m \<le> MAX_RETRIES cfg"
  shows "retry_from cfg net a w = retry_from cfg net (a + m) (w + (\<Sum>k = a..<a + m. delayTime cfg k))"
  using assms
proof (induction m arbitrary: a w)
  case 0
  then show ?case by simp
next
  case (Suc m)
  have "a \<le> a \<and> a < a + Suc m" by simp
  with Suc.prems(1) have "attempt_failed (net a)" by blast
  then obtain err where err: "attempt_result (net a) = Inl err"
    unfolding attempt_failed_iff by blast
  have lt: "a < MAX_RETRIES cfg" using Suc.prems(2) by simp
  have step: "retry_from cfg net a w = retry_from cfg net (Suc a) (w + delayTime cfg a)"
    using lt err by (rule retry_from_failure)
  have p1: "\<forall>k. Suc a \<le> k \<and> k < Suc a + m \<longrightarrow> attempt_failed (net k)"
    using Suc.prems(1) by simp
  have p2: "Suc a + m \<le> MAX_RETRIES cfg" using Suc.prems(2) by simp
  have ih: "retry_from cfg net (Suc a) (w + delayTime cfg a) =
        retry_from cfg net (Suc a + m) (w + delayTime cfg a + (\<Sum>k = Suc a..<Suc a + m. delayTime cfg k))"
    using p1 p2 by (rule Suc.IH)
  have sumeq: "(\<Sum>k = a..<a + Suc m. delayTime cfg k) = delayTime cfg a + (\<Sum>k = Suc a..<Suc a + m. delayTime cfg k)"
    by (subst sum.atLeast_Suc_lessThan) auto
  have "retry_from cfg net a w =
        retry_from cfg net (Suc a + m) (w + delayTime cfg a + (\<Sum>k = Suc a..<Suc a + m. delayTime cfg k))"
    using step ih by (rule trans)
  moreover have e1: "a + Suc m = Suc a + m" by simp
  ultimately show ?case
    unfolding sumeq unfolding e1 by (simp only: add.assoc)
qed


lemma send_failures_then_success:
  assumes "\<forall>k. 1 \<le> k \<and> k \<le> N \<longrightarrow> attempt_failed (net k)" "N < MAX_RETRIES cfg"
    "attempt_result (net (Suc N)) = Inr d"
  shows "sendRequestWithRetry cfg net = (Inr (Some d), (\<Sum>k = 1..N. delayTime cfg k))"
proof -
  have iv: "{1..<1 + N} = {1..N}" by auto
  have p1: "\<forall>k. 1 \<le> k \<and> k < 1 + N \<longrightarrow> attempt_failed (net k)" using assms(1) by simp
  have p2: "1 + N \<le> MAX_RETRIES cfg" using assms(2) by simp
  have a: "retry_from cfg net 1 0 = retry_from cfg net (1 + N) (0 + (\<Sum>k = 1..<1 + N. delayTime cfg k))"
    using p1 p2 by (rule retry_from_failures)
  have b: "retry_from cfg net (1 + N) W = (Inr (Some d), W)" for W
    using p2 assms(3) by (intro retry_from_success) simp_all
  show ?thesis unfolding sendRequestWithRetry_def a b iv by simp
qed

lemma send_all_fail:
  assumes "\<forall>k. 1 \<le> k \<and> k \<le> MAX_RETRIES cfg \<longrightarrow> attempt_failed (net k)" "0 < MAX_RETRIES cfg"
    "attempt_result (net (MAX_RETRIES cfg)) = Inl err"
  shows "sendRequestWithRetry cfg net = (Inl err, (\<Sum>k = 1..MAX_RETRIES cfg - 1. delayTime cfg k))"
proof -
  define M where "M = MAX_RETRIES cfg - 1"
  have M: "1 + M = MAX_RETRIES cfg" using assms(2) by (simp add: M_def)
  have iv: "{1..<1 + M} = {1..M}" by auto
  have p1: "\<forall>k. 1 \<le> k \<and> k < 1 + M \<longrightarrow> attempt_failed (net k)"
    using assms(1) M by auto
  have p2: "1 + M \<le> MAX_RETRIES cfg" using M by simp
  have a: "retry_from cfg net 1 0 = retry_from cfg net (1 + M) (0 + (\<Sum>k = 1..<1 + M. delayTime cfg k))"
    using p1 p2 by (rule retry_from_failures)
  have b: "retry_from cfg net (1 + M) W = (Inl err, W)" for W
    using M assms(3) by (intro retry_from_last_failure) simp_all
  show ?thesis unfolding sendRequestWithRetry_def a b iv by (simp add: M_def)
qed

lemma poll_from_falls_through:
  assumes "a < POLL_MAX_ATTEMPTS cfg" "poll_try (status_poll cfg srv a) = FallsThrough"
  shows "poll_from cfg srv a p = poll_from cfg srv (Suc a) (Suc p)"
  using assms by (subst poll_from.simps) (simp add: status_poll_def)

lemma poll_from_throws:
  assumes "a < POLL_MAX_ATTEMPTS cfg" "poll_try (status_poll cfg srv a) = Throws err"
  shows "poll_from cfg srv a p =
    (if a = POLL_MAX_ATTEMPTS cfg - 1 then (Inl err, Suc p) else poll_from cfg srv (Suc a) (Suc p))"
  using assms by (subst poll_from.simps) (simp add: status_poll_def)

lemma poll_from_returns:
  assumes "a < POLL_MAX_ATTEMPTS cfg" "poll_try (status_poll cfg srv a) = Returns xs"
  shows "poll_from cfg srv a p = (Inr xs, Suc p)"
  using assms by (subst poll_from.simps) (simp add: status_poll_def)

lemma poll_from_exhausted:
  assumes "\<not> a < POLL_MAX_ATTEMPTS cfg"
  shows "poll_from cfg srv a p = (Inl PollingTimeout, p)"
  using assms by (subst poll_from.simps) simp

lemma poll_from_all_fall_through:
  assumes "\<forall>k. a \<le> k \<and> k < POLL_MAX_ATTEMPTS cfg \<longrightarrow> poll_try (status_poll cfg srv k) = FallsThrough"
    "a + m = POLL_MAX_ATTEMPTS cfg"
  shows "poll_from cfg srv a p = (Inl PollingTimeout, p + m)"
  using assms
proof (induction m arbitrary: a p)
  case 0
  then have "\<not> a < POLL_MAX_ATTEMPTS cfg" by simp
  then show ?case by (simp add: poll_from_exhausted)
next
  case (Suc m)
  have lt: "a < POLL_MAX_ATTEMPTS cfg" using Suc.prems(2) by simp
  have ft: "poll_try (status_poll cfg srv a) = FallsThrough" using Suc.prems(1) lt by simp
  have step: "poll_from cfg srv a p = poll_from cfg srv (Suc a) (Suc p)"
    using lt ft by (rule poll_from_falls_through)
  have p1: "\<forall>k. Suc a \<le> k \<and> k < POLL_MAX_ATTEMPTS cfg \<longrightarrow> poll_try (status_poll cfg srv k) = FallsThrough"
    using Suc.prems(1) by simp
  have p2: "Suc a + m = POLL_MAX_ATTEMPTS cfg" using Suc.prems(2) by simp
  have "poll_from cfg srv (Suc a) (Suc p) = (Inl PollingTimeout, Suc p + m)"
    using p1 p2 by (rule Suc.IH)
  with step show ?case by simp
qed

lemma poll_from_all_throw:
  assumes "\<forall>k. a \<le> k \<and> k < POLL_MAX_ATTEMPTS cfg \<longrightarrow> poll_try (status_poll cfg srv k) = Throws err"
    "a + Suc m = POLL_MAX_ATTEMPTS cfg"
  shows "poll_from cfg srv a p = (Inl err, p + Suc m)"
  using assms
proof (induction m arbitrary: a p)
  case 0
  have lt: "a < POLL_MAX_ATTEMPTS cfg" using "0.prems"(2) by simp
  have th: "poll_try (status_poll cfg srv a) = Throws err" using "0.prems"(1) lt by simp
  have "a = POLL_MAX_ATTEMPTS cfg - 1" using "0.prems"(2) by simp
  then show ?case using poll_from_throws [OF lt th, of p] by simp
next
  case (Suc m)
  have lt: "a < POLL_MAX_ATTEMPTS cfg" using Suc.prems(2) by simp
  have th: "poll_try (status_poll cfg srv a) = Throws err" using Suc.prems(1) lt by simp
  have ne: "a \<noteq> POLL_MAX_ATTEMPTS cfg - 1" using Suc.prems(2) by simp
  have step: "poll_from cfg srv a p = poll_from cfg srv (Suc a) (Suc p)"
    using poll_from_throws [OF lt th, of p] ne by simp
  have p1: "\<forall>k. Suc a \<le> k \<and> k < POLL_MAX_ATTEMPTS cfg \<longrightarrow> poll_try (status_poll cfg srv k) = Throws err"
    using Suc.prems(1) by simp
  have p2: "Suc a + Suc m = POLL_MAX_ATTEMPTS cfg" using Suc.prems(2) by simp
  have "poll_from cfg srv (Suc a) (Suc p) = (Inl err, Suc p + Suc m)"
    using p1 p2 by (rule Suc.IH)
  with step show ?case by simp
qed

lemma status_poll_answers:
  "status_poll CONFIG (\<lambda>a. answers st xs) a = Inr (Some \<lparr>status = st, reportData_items = Some xs, items = None\<rparr>)"
  by (simp add: status_poll_def sendRequestWithRetry_def retry_from_success CONFIG_def answers_def)

section \<open>The processing loop: one record, and a record within a run\<close>

lemma process_referral_absent:
  "customerMap (receivingMemberId r) = None \<Longrightarrow>
   process_referral cfg customerMap e r s = s\<lparr>processedCount := processedCount s + 1\<rparr>"
  by (simp add: process_referral_def)

lemma check_existing:
  "L (g, r) = Some row \<Longrightarrow>
   checkIfAlreadyProcessed (supabase_select L NoFault g r) =
     \<lparr>processed = True, rewarded = givingMemberRewarded row, row_status = Some (processing_status row)\<rparr>"
  by (simp add: supabase_select_def)

lemma check_fresh:
  "L (g, r) = None \<Longrightarrow> \<not> processed (checkIfAlreadyProcessed (supabase_select L f g r))"
  by (cases f) (simp_all add: supabase_select_def)

lemma check_fault:
  "f \<noteq> NoFault \<Longrightarrow>
   checkIfAlreadyProcessed (supabase_select L f g r) = \<lparr>processed = False, rewarded = False, row_status = None\<rparr>"
  by (cases f) (simp_all add: supabase_select_def)

lemma process_referral_skipped:
  assumes "customerMap (receivingMemberId r) = Some c"
    "processed (checkIfAlreadyProcessed
       (supabase_select (ledger s) (select_fault e) (givingMemberId r) (receivingMemberId r)))"
  shows "process_referral cfg customerMap e r s =
    s\<lparr>processedCount := processedCount s + 1,
      skippedCount := skippedCount s + 1,
      events := events s @ [LedgerLookup (processedCount s + 1) (givingMemberId r) (receivingMemberId r)]\<rparr>"
  using assms by (simp add: process_referral_def emit_def)

lemma process_referral_fresh:
  assumes "customerMap (receivingMemberId r) = Some c"
    "\<not> processed (checkIfAlreadyProcessed
       (supabase_select (ledger s) (select_fault e) (givingMemberId r) (receivingMemberId r)))"
    "n = processedCount s + 1"
    "q = (js_or_num (receivingMemberVisits r) 0 \<ge> 1)"
    "loc = getLocationIdFromName (homeLocation r)"
    "ok = (q \<and> rewardGivingMember cfg (payment_net e) (givingMemberId r) loc)"
    "d = make_referralRecord r c ok"
  shows "process_referral cfg customerMap e r s =
    s\<lparr>processedCount := n,
      rewardedCount := rewardedCount s + (if ok then 1 else 0),
      ledger := snd (updateSupabaseRecord (ledger s) e d),
      events := events s @ [LedgerLookup n (givingMemberId r) (receivingMemberId r)]
                @ (if q then [IssuerCall n (givingMemberId r) loc] else [])
                @ [LedgerCommit n d]\<rparr>"
  using assms by (simp add: process_referral_def emit_def Let_def split: prod.splits)

lemma processedCount_process_referral:
  "processedCount (process_referral cfg customerMap e r s) = Suc (processedCount s)"
  by (simp add: process_referral_def emit_def Let_def split: prod.splits option.splits)

lemma events_process_referral:
  "\<exists>new. events (process_referral cfg customerMap e r s) = events s @ new
      \<and> (\<forall>ev \<in> set new. tag ev = Suc (processedCount s))"
  by (simp add: process_referral_def emit_def Let_def split: prod.splits option.splits)

lemma process_referrals_append:
  "process_referrals cfg cm envs (xs @ ys) s =
   process_referrals cfg cm envs ys (process_referrals cfg cm envs xs s)"
  by (induction xs arbitrary: s) simp_all

lemma processedCount_process_referrals:
  "processedCount (process_referrals cfg cm envs xs s) = processedCount s + length xs"
  by (induction xs arbitrary: s) (simp_all add: processedCount_process_referral)

lemma processedCount_state_before:
  "i \<le> length rs \<Longrightarrow> processedCount (state_before cfg cs rs envs L i) = i"
  by (simp add: state_before_def run_step3_def processedCount_process_referrals start_def)

lemma state_before_Suc:
  assumes "i < length rs"
  shows "state_before cfg cs rs envs L (Suc i) =
    process_referral cfg (customerMap_of cs) (envs (Suc i)) (rs ! i) (state_before cfg cs rs envs L i)"
proof -
  have pc: "processedCount (process_referrals cfg (customerMap_of cs) envs (take i rs) (start L)) = i"
    using assms by (simp add: processedCount_process_referrals start_def)
  have "take (Suc i) rs = take i rs @ [rs ! i]"
    using assms by (rule take_Suc_conv_app_nth)
  then show ?thesis
    by (simp add: state_before_def run_step3_def process_referrals_append pc)
qed

lemma tags_bounded_step:
  assumes "\<forall>ev \<in> set (events s). tag ev \<le> processedCount s"
  shows "\<forall>ev \<in> set (events (process_referral cfg cm e r s)).
           tag ev \<le> processedCount (process_referral cfg cm e r s)"
proof -
  obtain new where new: "events (process_referral cfg cm e r s) = events s @ new"
      "\<forall>ev \<in> set new. tag ev = Suc (processedCount s)"
    using events_process_referral by blast
  show ?thesis
    using assms new by (auto simp: processedCount_process_referral le_Suc_eq)
qed

lemma tags_bounded:
  assumes "\<forall>ev \<in> set (events s). tag ev \<le> processedCount s"
  shows "\<forall>ev \<in> set (events (process_referrals cfg cm envs xs s)).
           tag ev \<le> processedCount (process_referrals cfg cm envs xs s)"
  using assms
proof (induction xs arbitrary: s)
  case Nil
  then show ?case by simp
next
  case (Cons x xs)
  have "\<forall>ev \<in> set (events (process_referral cfg cm (envs (processedCount s + 1)) x s)).
           tag ev \<le> processedCount (process_referral cfg cm (envs (processedCount s + 1)) x s)"
    using Cons.prems by (rule tags_bounded_step)
  then show ?case using Cons.IH by simp
qed

lemma tags_bounded_state_before:
  "\<forall>ev \<in> set (events (state_before cfg cs rs envs L i)). tag ev \<le> processedCount (state_before cfg cs rs envs L i)"
  unfolding state_before_def run_step3_def
  by (rule tags_bounded) (simp add: start_def)

lemma later_records_keep_tag:
  assumes "n \<le> processedCount s"
  shows "filter (\<lambda>ev. tag ev = n) (events (process_referrals cfg cm envs xs s)) =
         filter (\<lambda>ev. tag ev = n) (events s)"
  using assms
proof (induction xs arbitrary: s)
  case Nil
  then show ?case by simp
next
  case (Cons x xs)
  let ?s' = "process_referral cfg cm (envs (processedCount s + 1)) x s"
  obtain new where new: "events ?s' = events s @ new"
      "\<forall>ev \<in> set new. tag ev = Suc (processedCount s)"
    using events_process_referral by blast
  have "filter (\<lambda>ev. tag ev = n) new = []"
    using new(2) Cons.prems by (auto simp: filter_empty_conv)
  then have step: "filter (\<lambda>ev. tag ev = n) (events ?s') = filter (\<lambda>ev. tag ev = n) (events s)"
    using new(1) by simp
  have "n \<le> processedCount ?s'"
    using Cons.prems by (simp add: processedCount_process_referral)
  then have "filter (\<lambda>ev. tag ev = n) (events (process_referrals cfg cm envs xs ?s')) =
         filter (\<lambda>ev. tag ev = n) (events ?s')"
    by (rule Cons.IH)
  with step show ?case by simp
qed

lemma events_state_before_Suc:
  assumes "i < length rs"
  shows "events (state_before cfg cs rs envs L (Suc i)) =
         events (state_before cfg cs rs envs L i) @ record_events cfg cs rs envs L i"
proof -
  let ?sb = "state_before cfg cs rs envs L i"
  let ?sa = "state_before cfg cs rs envs L (Suc i)"
  have pcb: "processedCount ?sb = i" using assms by (simp add: processedCount_state_before)
  have pca: "processedCount ?sa = Suc i" using assms by (simp add: processedCount_state_before)
  have sa: "?sa = process_referral cfg (customerMap_of cs) (envs (Suc i)) (rs ! i) ?sb"
    using assms by (rule state_before_Suc)
  obtain new where new: "events ?sa = events ?sb @ new" "\<forall>ev \<in> set new. tag ev = Suc i"
    using events_process_referral [of cfg "customerMap_of cs" "envs (Suc i)" "rs ! i" ?sb]
    unfolding sa [symmetric] pcb by blast
  have old: "filter (\<lambda>ev. tag ev = Suc i) (events ?sb) = []"
    using tags_bounded_state_before [of cfg cs rs envs L i] pcb
    by (auto simp: filter_empty_conv)
  have fnew: "filter (\<lambda>ev. tag ev = Suc i) new = new"
    using new(2) by (simp add: filter_id_conv)
  have "rs = take (Suc i) rs @ drop (Suc i) rs" by simp
  then have "run_step3 cfg cs rs envs L =
      process_referrals cfg (customerMap_of cs) envs (drop (Suc i) rs) ?sa"
    unfolding state_before_def run_step3_def
    by (metis process_referrals_append)
  then have "record_events cfg cs rs envs L i =
      filter (\<lambda>ev. tag ev = Suc i) (events ?sa)"
    unfolding record_events_def using later_records_keep_tag [of "Suc i" ?sa] pca by simp
  also have "\<dots> = new" using new(1) old fnew by simp
  finally show ?thesis using new(1) by simp
qed

section \<open>Rows of other pairs, and the events of one record\<close>

lemma updateSupabaseRecord_other_key:
  assumes "k \<noteq> (givingMemberId d, receivingMemberId d)"
  shows "snd (updateSupabaseRecord L e d) k = L k"
  using assms
  by (auto simp: updateSupabaseRecord_def supabase_insert_def supabase_update_def Let_def
      split: fault.splits option.splits if_splits)

lemma make_referralRecord_key:
  "givingMemberId (make_referralRecord r c ok) = givingMemberId r"
  "receivingMemberId (make_referralRecord r c ok) = receivingMemberId r"
  by (simp_all add: make_referralRecord_def)

lemma process_referral_keeps_rows:
  assumes "select_fault e = NoFault" "ledger s key = Some row"
  shows "ledger (process_referral cfg cm e r s) key = Some row"
proof (cases "cm (receivingMemberId r)")
  case None
  then show ?thesis using assms by (simp add: process_referral_absent)
next
  case (Some c)
  let ?ps = "checkIfAlreadyProcessed
       (supabase_select (ledger s) (select_fault e) (givingMemberId r) (receivingMemberId r))"
  show ?thesis
  proof (cases "processed ?ps")
    case True
    then show ?thesis using Some assms by (simp add: process_referral_skipped)
  next
    case False
    have "ledger s (givingMemberId r, receivingMemberId r) = None"
    proof (rule ccontr)
      assume "ledger s (givingMemberId r, receivingMemberId r) \<noteq> None"
      then obtain row' where "ledger s (givingMemberId r, receivingMemberId r) = Some row'" by blast
      then have "processed ?ps" using assms(1) by (simp add: check_existing)
      with False show False by simp
    qed
    then have ne: "key \<noteq> (givingMemberId r, receivingMemberId r)" using assms(2) by auto
    define q where "q = (js_or_num (receivingMemberVisits r) 0 \<ge> 1)"
    define loc where "loc = getLocationIdFromName (homeLocation r)"
    define ok where "ok = (q \<and> rewardGivingMember cfg (payment_net e) (givingMemberId r) loc)"
    define d where "d = make_referralRecord r c ok"
    have "ledger (process_referral cfg cm e r s) = snd (updateSupabaseRecord (ledger s) e d)"
      using process_referral_fresh [where customerMap = cm and r = r and c = c and s = s and e = e
          and cfg = cfg and n = "processedCount s + 1", OF Some False refl q_def loc_def ok_def d_def]
      by simp
    moreover have "key \<noteq> (givingMemberId d, receivingMemberId d)"
      using ne by (simp add: d_def make_referralRecord_key)
    ultimately show ?thesis
      using assms(2) by (simp add: updateSupabaseRecord_other_key)
  qed
qed

lemma record_events_absent:
  assumes "i < length rs" "customerMap_of cs (receivingMemberId (rs ! i)) = None"
  shows "record_events cfg cs rs envs L i = []"
proof -
  have "events (state_before cfg cs rs envs L (Suc i)) = events (state_before cfg cs rs envs L i)"
    using assms by (simp add: state_before_Suc process_referral_absent)
  then show ?thesis
    using events_state_before_Suc [OF assms(1), of cfg cs envs L] by simp
qed

lemma record_events_skipped:
  assumes "i < length rs" "customerMap_of cs (receivingMemberId (rs ! i)) = Some c"
    "processed (checkIfAlreadyProcessed
       (supabase_select (ledger (state_before cfg cs rs envs L i)) (select_fault (envs (Suc i)))
          (givingMemberId (rs ! i)) (receivingMemberId (rs ! i))))"
  shows "record_events cfg cs rs envs L i =
    [LedgerLookup (Suc i) (givingMemberId (rs ! i)) (receivingMemberId (rs ! i))]"
proof -
  have "events (state_before cfg cs rs envs L (Suc i)) =
        events (state_before cfg cs rs envs L i) @
        [LedgerLookup (Suc i) (givingMemberId (rs ! i)) (receivingMemberId (rs ! i))]"
    using assms
    by (simp add: state_before_Suc process_referral_skipped processedCount_state_before)
  then show ?thesis
    using events_state_before_Suc [OF assms(1), of cfg cs envs L] by simp
qed

lemma record_events_fresh:
  assumes "i < length rs" "customerMap_of cs (receivingMemberId (rs ! i)) = Some c"
    "\<not> processed (checkIfAlreadyProcessed
       (supabase_select (ledger (state_before cfg cs rs envs L i)) (select_fault (envs (Suc i)))
          (givingMemberId (rs ! i)) (receivingMemberId (rs ! i))))"
  shows "record_events cfg cs rs envs L i =
    [LedgerLookup (Suc i) (givingMemberId (rs ! i)) (receivingMemberId (rs ! i))]
    @ (if js_or_num (receivingMemberVisits (rs ! i)) 0 \<ge> 1
       then [IssuerCall (Suc i) (givingMemberId (rs ! i)) (getLocationIdFromName (homeLocation (rs ! i)))]
       else [])
    @ [LedgerCommit (Suc i) (make_referralRecord (rs ! i) c
         (js_or_num (receivingMemberVisits (rs ! i)) 0 \<ge> 1 \<and>
          rewardGivingMember cfg (payment_net (envs (Suc i))) (givingMemberId (rs ! i))
            (getLocationIdFromName (homeLocation (rs ! i)))))]"
proof -
  let ?sb = "state_before cfg cs rs envs L i"
  have pc: "processedCount ?sb + 1 = Suc i"
    using assms(1) by (simp add: processedCount_state_before)
  have "events (state_before cfg cs rs envs L (Suc i)) = events ?sb @
    ([LedgerLookup (Suc i) (givingMemberId (rs ! i)) (receivingMemberId (rs ! i))]
    @ (if js_or_num (receivingMemberVisits (rs ! i)) 0 \<ge> 1
       then [IssuerCall (Suc i) (givingMemberId (rs ! i)) (getLocationIdFromName (homeLocation (rs ! i)))]
       else [])
    @ [LedgerCommit (Suc i) (make_referralRecord (rs ! i) c
         (js_or_num (receivingMemberVisits (rs ! i)) 0 \<ge> 1 \<and>
          rewardGivingMember cfg (payment_net (envs (Suc i))) (givingMemberId (rs ! i))
            (getLocationIdFromName (homeLocation (rs ! i)))))])"
    unfolding state_before_Suc [OF assms(1)]
    using process_referral_fresh [where customerMap = "customerMap_of cs" and r = "rs ! i"
        and c = c and s = ?sb and e = "envs (Suc i)" and cfg = cfg and n = "Suc i",
        OF assms(2) assms(3) pc [symmetric] refl refl refl refl]
    by simp
  then show ?thesis
    using events_state_before_Suc [OF assms(1), of cfg cs envs L] by simp
qed

section \<open>The ledger gate\<close>

text \<open>
  C1. For every referral record processed in a run whose receiving member is a candidate:
  if the ledger lookup for the pair succeeds and finds a row, whatever its reward flag,
  the only thing the run does for that record is the lookup. The Reward Issuer is not
  invoked, nothing is committed to the ledger (the ledger after the record is the ledger
  before it), and \<^verbatim>\<open>skippedCount\<close> grows by one. The record is the one at any position
  \<open>i\<close> of any report; \<open>state_before\<close> is the state in which the loop reaches it.
\<close>

theorem C1_existing_row_blocks_issuance:
  assumes "i < length referralData"
    "customerMap_of customers (receivingMemberId (referralData ! i)) = Some c"
    "select_fault (envs (Suc i)) = NoFault"
    "ledger (state_before cfg customers referralData envs L i)
       (givingMemberId (referralData ! i), receivingMemberId (referralData ! i)) = Some row"
  shows "record_events cfg customers referralData envs L i =
      [LedgerLookup (Suc i) (givingMemberId (referralData ! i)) (receivingMemberId (referralData ! i))]
    \<and> ledger (state_before cfg customers referralData envs L (Suc i)) =
      ledger (state_before cfg customers referralData envs L i)
    \<and> skippedCount (state_before cfg customers referralData envs L (Suc i)) =
      skippedCount (state_before cfg customers referralData envs L i) + 1
    \<and> rewardedCount (state_before cfg customers referralData envs L (Suc i)) =
      rewardedCount (state_before cfg customers referralData envs L i)"
proof -
  have p: "processed (checkIfAlreadyProcessed
       (supabase_select (ledger (state_before cfg customers referralData envs L i))
          (select_fault (envs (Suc i)))
          (givingMemberId (referralData ! i)) (receivingMemberId (referralData ! i))))"
    using assms(3,4) by (simp add: check_existing)
  show ?thesis
    using assms(1,2) p
    by (simp add: record_events_skipped state_before_Suc process_referral_skipped)
qed

text \<open>
  The theorem at the pair \<open>(1, 102)\<close>, already rewarded, sighted again.
\<close>

theorem C1_witness:
  "0 < length resighting
   \<and> customerMap_of candidates (receivingMemberId (resighting ! 0)) = Some (cust 102)
   \<and> select_fault (calm (Suc 0)) = NoFault
   \<and> ledger (state_before CONFIG candidates resighting calm rewarded_ledger 0)
        (givingMemberId (resighting ! 0), receivingMemberId (resighting ! 0)) = Some (stored_row True)
   \<and> record_events CONFIG candidates resighting calm rewarded_ledger 0 = [LedgerLookup 1 1 102]
   \<and> ledger (state_before CONFIG candidates resighting calm rewarded_ledger (Suc 0)) =
      ledger (state_before CONFIG candidates resighting calm rewarded_ledger 0)
   \<and> skippedCount (state_before CONFIG candidates resighting calm rewarded_ledger (Suc 0)) =
      skippedCount (state_before CONFIG candidates resighting calm rewarded_ledger 0) + 1"
proof -
  have h1: "0 < length resighting" by code_simp
  have h2: "customerMap_of candidates (receivingMemberId (resighting ! 0)) = Some (cust 102)"
    by code_simp
  have h3: "select_fault (calm (Suc 0)) = NoFault" by code_simp
  have h4: "ledger (state_before CONFIG candidates resighting calm rewarded_ledger 0)
        (givingMemberId (resighting ! 0), receivingMemberId (resighting ! 0)) = Some (stored_row True)"
    by code_simp
  have ids: "givingMemberId (resighting ! 0) = 1" "receivingMemberId (resighting ! 0) = 102"
    by code_simp+
  show ?thesis
    using h1 h2 h3 h4 C1_existing_row_blocks_issuance [OF h1 h2 h3 h4]
    unfolding ids by simp
qed

text \<open>
  C2, as stated, fails: the claim says that a later sighting of a pair whose row exists
  with \<^verbatim>\<open>givingMemberRewarded = false\<close> refreshes the row's visits, spend and status.
  The row of \<open>(1, 102)\<close> holds 1 visit and spend 0, unrewarded; the pair is sighted
  with 3 visits and spend 500; after the run the row is what it was.
\<close>

theorem C2_counterexample:
  "unrewarded_ledger (1, 102) = Some (stored_row False)
   \<and> givingMemberRewarded (stored_row False) = False
   \<and> receivingMemberVisits (stored_row False) = Some 1
   \<and> receivingMemberTotalSpend (stored_row False) = Some 0
   \<and> givingMemberId (resighting ! 0) = 1 \<and> receivingMemberId (resighting ! 0) = 102
   \<and> receivingMemberVisits (resighting ! 0) = Some 3
   \<and> receivingMemberTotalSpend (resighting ! 0) = Some 500
   \<and> ledger (run_step3 CONFIG candidates resighting calm unrewarded_ledger) (1, 102) =
       Some (stored_row False)"
  by code_simp

text \<open>
  C2, amended. A run whose ledger lookups succeed leaves every row that existed before
  the run exactly as it was, rewarded or not, however often its pair is sighted in the
  report: visits, spend and status are not refreshed. (The update branch of
  \<^verbatim>\<open>updateSupabaseRecord\<close> is reached only after a failed lookup.)
\<close>

theorem C2_existing_row_is_not_refreshed:
  assumes "\<forall>n. select_fault (envs n) = NoFault" "L key = Some row"
  shows "ledger (run_step3 cfg customers referralData envs L) key = Some row"
proof -
  have "ledger s key = Some row \<Longrightarrow>
        ledger (process_referrals cfg (customerMap_of customers) envs referralData s) key = Some row" for s
  proof (induction referralData arbitrary: s)
    case Nil
    then show ?case by simp
  next
    case (Cons r rs)
    have "select_fault (envs (processedCount s + 1)) = NoFault" using assms(1) by blast
    then have "ledger (process_referral cfg (customerMap_of customers) (envs (processedCount s + 1)) r s) key = Some row"
      using Cons.prems by (rule process_referral_keeps_rows)
    then show ?case using Cons.IH by simp
  qed
  then show ?thesis using assms(2) by (simp add: run_step3_def start_def)
qed

theorem C2_witness:
  "(\<forall>n. select_fault (calm n) = NoFault)
   \<and> unrewarded_ledger (1, 102) = Some (stored_row False)
   \<and> ledger (run_step3 CONFIG candidates resighting calm unrewarded_ledger) (1, 102) =
       Some (stored_row False)"
proof -
  have h1: "\<forall>n. select_fault (calm n) = NoFault" by (simp add: calm_def no_faults_def)
  have h2: "unrewarded_ledger (1, 102) = Some (stored_row False)"
    by (simp add: unrewarded_ledger_def)
  show ?thesis
    using h1 h2 C2_existing_row_is_not_refreshed [where envs = calm and L = unrewarded_ledger
        and key = "(1, 102)" and row = "stored_row False" and cfg = CONFIG
        and customers = candidates and referralData = resighting, OF h1 h2]
    by simp
qed

text \<open>
  C8. If the point lookup fails, by an error answer or by an exception,
  \<^verbatim>\<open>checkIfAlreadyProcessed\<close> answers "not processed" (\<^verbatim>\<open>processed = false\<close>,
  \<^verbatim>\<open>rewarded = false\<close>) whatever the ledger holds, and so a record of a candidate
  with a visit count of at least one is passed to the Reward Issuer.
\<close>

theorem C8_lookup_failure_means_not_processed:
  assumes "f \<noteq> NoFault"
  shows "checkIfAlreadyProcessed (supabase_select L f g r) =
      \<lparr>processed = False, rewarded = False, row_status = None\<rparr>
    \<and> (\<forall>cfg customerMap e referral s c.
         select_fault e = f \<and> customerMap (receivingMemberId referral) = Some c
           \<and> 1 \<le> js_or_num (receivingMemberVisits referral) 0 \<longrightarrow>
         IssuerCall (processedCount s + 1) (givingMemberId referral)
             (getLocationIdFromName (homeLocation referral))
           \<in> set (events (process_referral cfg customerMap e referral s)))"
proof (intro conjI allI impI)
  show "checkIfAlreadyProcessed (supabase_select L f g r) =
      \<lparr>processed = False, rewarded = False, row_status = None\<rparr>"
    using assms by (rule check_fault)
next
  fix cfg :: config and customerMap :: "int \<rightharpoonup> customer" and e :: env
    and referral :: referral and s :: run_state and c :: customer
  assume h: "select_fault e = f \<and> customerMap (receivingMemberId referral) = Some c
           \<and> 1 \<le> js_or_num (receivingMemberVisits referral) 0"
  then have nf: "select_fault e \<noteq> NoFault" using assms by simp
  have np: "\<not> processed (checkIfAlreadyProcessed
       (supabase_select (ledger s) (select_fault e) (givingMemberId referral) (receivingMemberId referral)))"
    using nf by (simp add: check_fault)
  have c: "customerMap (receivingMemberId referral) = Some c" using h by simp
  show "IssuerCall (processedCount s + 1) (givingMemberId referral)
             (getLocationIdFromName (homeLocation referral))
           \<in> set (events (process_referral cfg customerMap e referral s))"
    using process_referral_fresh [where customerMap = customerMap and r = referral
        and c = c and s = s and e = e and cfg = cfg, OF c np refl refl refl refl refl] h
    by simp
qed

text \<open>
  The theorem at a ledger that already holds a rewarded row for the pair: the failed
  lookup hides the row and the giving member is rewarded again.
\<close>

theorem C8_witness:
  "ErrorReply ''PGRST301'' \<noteq> NoFault
   \<and> rewarded_ledger (1, 102) = Some (stored_row True)
   \<and> checkIfAlreadyProcessed (supabase_select rewarded_ledger (ErrorReply ''PGRST301'') 1 102) =
      \<lparr>processed = False, rewarded = False, row_status = None\<rparr>
   \<and> IssuerCall 1 1 (Some (JNum 29821))
       \<in> set (events (process_referral CONFIG (customerMap_of candidates) lookup_down
                 (resighting ! 0) (start rewarded_ledger)))"
proof -
  have h: "ErrorReply ''PGRST301'' \<noteq> NoFault" by simp
  have r: "rewarded_ledger (1, 102) = Some (stored_row True)" by (simp add: rewarded_ledger_def)
  have p: "select_fault lookup_down = ErrorReply ''PGRST301''
     \<and> customerMap_of candidates (receivingMemberId (resighting ! 0)) = Some (cust 102)
     \<and> 1 \<le> js_or_num (receivingMemberVisits (resighting ! 0)) 0"
    by code_simp
  have v: "processedCount (start rewarded_ledger) + 1 = 1" "givingMemberId (resighting ! 0) = 1"
    "getLocationIdFromName (homeLocation (resighting ! 0)) = Some (JNum 29821)"
    by code_simp+
  note C = C8_lookup_failure_means_not_processed [OF h, of rewarded_ledger 1 102]
  have "IssuerCall (processedCount (start rewarded_ledger) + 1) (givingMemberId (resighting ! 0))
             (getLocationIdFromName (homeLocation (resighting ! 0)))
           \<in> set (events (process_referral CONFIG (customerMap_of candidates) lookup_down
                 (resighting ! 0) (start rewarded_ledger)))"
    using C p by blast
  then show ?thesis using h r C unfolding v by blast
qed

section \<open>Reconciliation and qualification\<close>

text \<open>
  C3. For every referral record whose receiving member is a candidate and whose pair has
  no ledger row when the loop reaches it: with \<^verbatim>\<open>receivingMemberVisits = 0\<close> no event
  of the run for that record is an issuer call, and with a visit count of 1 or more
  exactly one is, for the record's giving member.
\<close>

theorem C3_qualification_threshold:
  assumes "i < length referralData"
    "customerMap_of customers (receivingMemberId (referralData ! i)) = Some c"
    "ledger (state_before cfg customers referralData envs L i)
       (givingMemberId (referralData ! i), receivingMemberId (referralData ! i)) = None"
  shows "(receivingMemberVisits (referralData ! i) = Some 0 \<longrightarrow>
            filter is_issuer_call (record_events cfg customers referralData envs L i) = [])
    \<and> (\<forall>v. receivingMemberVisits (referralData ! i) = Some v \<and> 1 \<le> v \<longrightarrow>
            filter is_issuer_call (record_events cfg customers referralData envs L i) =
              [IssuerCall (Suc i) (givingMemberId (referralData ! i))
                 (getLocationIdFromName (homeLocation (referralData ! i)))])"
proof -
  have np: "\<not> processed (checkIfAlreadyProcessed
       (supabase_select (ledger (state_before cfg customers referralData envs L i))
          (select_fault (envs (Suc i)))
          (givingMemberId (referralData ! i)) (receivingMemberId (referralData ! i))))"
    using assms(3) by (rule check_fresh)
  show ?thesis
    unfolding record_events_fresh [OF assms(1) assms(2) np]
    by (auto simp: js_or_num_def)
qed

text \<open>
  The theorem on the scenario's third record (0 visits) and first record (2 visits).
\<close>

theorem C3_witness:
  "ledger (state_before CONFIG candidates scenario_report calm Map.empty 2)
       (givingMemberId (scenario_report ! 2), receivingMemberId (scenario_report ! 2)) = None
   \<and> receivingMemberVisits (scenario_report ! 2) = Some 0
   \<and> filter is_issuer_call (record_events CONFIG candidates scenario_report calm Map.empty 2) = []
   \<and> ledger (state_before CONFIG candidates scenario_report calm Map.empty 0)
       (givingMemberId (scenario_report ! 0), receivingMemberId (scenario_report ! 0)) = None
   \<and> receivingMemberVisits (scenario_report ! 0) = Some 2
   \<and> filter is_issuer_call (record_events CONFIG candidates scenario_report calm Map.empty 0) =
       [IssuerCall 1 1 (Some (JNum 29821))]"
proof -
  have a1: "2 < length scenario_report" by code_simp
  have a2: "customerMap_of candidates (receivingMemberId (scenario_report ! 2)) = Some (cust 103)"
    by code_simp
  have a3: "ledger (state_before CONFIG candidates scenario_report calm Map.empty 2)
       (givingMemberId (scenario_report ! 2), receivingMemberId (scenario_report ! 2)) = None"
    by code_simp
  have a4: "receivingMemberVisits (scenario_report ! 2) = Some 0" by code_simp
  have b1: "0 < length scenario_report" by code_simp
  have b2: "customerMap_of candidates (receivingMemberId (scenario_report ! 0)) = Some (cust 102)"
    by code_simp
  have b3: "ledger (state_before CONFIG candidates scenario_report calm Map.empty 0)
       (givingMemberId (scenario_report ! 0), receivingMemberId (scenario_report ! 0)) = None"
    by code_simp
  have b4: "receivingMemberVisits (scenario_report ! 0) = Some 2" by code_simp
  have b5: "givingMemberId (scenario_report ! 0) = 1"
    "getLocationIdFromName (homeLocation (scenario_report ! 0)) = Some (JNum 29821)"
    by code_simp+
  have A: "filter is_issuer_call (record_events CONFIG candidates scenario_report calm Map.empty 2) = []"
    using C3_qualification_threshold [OF a1 a2 a3] a4 by blast
  have B: "filter is_issuer_call (record_events CONFIG candidates scenario_report calm Map.empty 0) =
       [IssuerCall 1 1 (Some (JNum 29821))]"
    using C3_qualification_threshold [OF b1 b2 b3] b4 b5 by simp
  show ?thesis using a3 a4 A b3 b4 B by blast
qed

text \<open>
  C4. For every referral record whose \<^verbatim>\<open>receivingMemberId\<close> is absent from the
  customer map, the run has no event for that record (no ledger lookup, no issuer call,
  no commit), and the ledger and the counters of skipped and rewarded records are after
  the record what they were before it.
\<close>

theorem C4_unmatched_receiving_member_is_ignored:
  assumes "i < length referralData"
    "customerMap_of customers (receivingMemberId (referralData ! i)) = None"
  shows "record_events cfg customers referralData envs L i = []
    \<and> ledger (state_before cfg customers referralData envs L (Suc i)) =
      ledger (state_before cfg customers referralData envs L i)
    \<and> skippedCount (state_before cfg customers referralData envs L (Suc i)) =
      skippedCount (state_before cfg customers referralData envs L i)
    \<and> rewardedCount (state_before cfg customers referralData envs L (Suc i)) =
      rewardedCount (state_before cfg customers referralData envs L i)"
  using assms by (simp add: record_events_absent state_before_Suc process_referral_absent)

text \<open>
  The theorem on the scenario's second record, whose receiving member 104 is no candidate.
\<close>

theorem C4_witness:
  "1 < length scenario_report
   \<and> customerMap_of candidates (receivingMemberId (scenario_report ! 1)) = None
   \<and> record_events CONFIG candidates scenario_report calm Map.empty 1 = []
   \<and> ledger (state_before CONFIG candidates scenario_report calm Map.empty (Suc 1)) =
      ledger (state_before CONFIG candidates scenario_report calm Map.empty 1)"
proof -
  have h1: "1 < length scenario_report" by code_simp
  have h2: "customerMap_of candidates (receivingMemberId (scenario_report ! 1)) = None"
    by code_simp
  show ?thesis
    using h1 h2 C4_unmatched_receiving_member_is_ignored [OF h1 h2, of CONFIG calm Map.empty]
    by simp
qed

text \<open>No record is ever committed with a visit count of 0.\<close>

lemma committed_visits_never_zero:
  "receivingMemberVisits (make_referralRecord r c ok) \<noteq> Some 0"
  by (simp add: make_referralRecord_def js_or_num_def split: option.splits)

text \<open>
  C9. The claim says that a record with \<^verbatim>\<open>receivingMemberVisits = 0\<close> is committed
  with its visit count 0 and tracked as \<^verbatim>\<open>not_qualified\<close>. On the scenario's third
  record the Reward Issuer is indeed not invoked and a row is committed with
  \<^verbatim>\<open>givingMemberRewarded = false\<close>, but \<^verbatim>\<open>referral.receivingMemberVisits || 1\<close>
  turns the 0 into 1: the committed row holds 1 visit and the trigger marks it
  \<^verbatim>\<open>qualified\<close>.
\<close>

theorem C9_zero_visits_is_stored_as_one_visit:
  "customerMap_of candidates (receivingMemberId (scenario_report ! 2)) = Some (cust 103)
   \<and> receivingMemberVisits (scenario_report ! 2) = Some 0
   \<and> record_events CONFIG candidates scenario_report calm Map.empty 2 =
       [LedgerLookup 3 3 103,
        LedgerCommit 3 (make_referralRecord (scenario_report ! 2) (cust 103) False)]
   \<and> receivingMemberVisits (make_referralRecord (scenario_report ! 2) (cust 103) False) = Some 1
   \<and> map_option receivingMemberVisits
       (ledger (run_step3 CONFIG candidates scenario_report calm Map.empty) (3, 103)) = Some (Some 1)
   \<and> map_option processing_status
       (ledger (run_step3 CONFIG candidates scenario_report calm Map.empty) (3, 103)) = Some ''qualified''
   \<and> map_option givingMemberRewarded
       (ledger (run_step3 CONFIG candidates scenario_report calm Map.empty) (3, 103)) = Some False"
  by code_simp

section \<open>Location resolution\<close>

text \<open>
  How far the default reaches: a mapped name gives its id, and a name that is neither
  mapped nor the name of a property inherited from \<^verbatim>\<open>Object.prototype\<close> gives 9030.
\<close>

lemma getLocationIdFromName_mapped:
  "LOCATIONS k = Some n \<Longrightarrow> getLocationIdFromName (Some k) = Some (JNum n)"
  by (auto simp: getLocationIdFromName_def LOCATIONS_get_def property_key_def js_or_def
      LOCATIONS_def split: if_splits)

lemma getLocationIdFromName_default:
  assumes "LOCATIONS (property_key name) = None" "property_key name \<notin> set Object_prototype_names"
  shows "getLocationIdFromName name = Some (JNum 9030)"
  using assms by (simp add: getLocationIdFromName_def LOCATIONS_get_def js_or_def LOCATIONS_def)

text \<open>
  C10. The claim says that every home location other than the three mapped names resolves
  to the default id 9030. A mapped name, an absent name and an unknown name behave so;
  the name \<^verbatim>\<open>constructor\<close> does not: \<^verbatim>\<open>CONFIG.LOCATIONS["constructor"]\<close> is the
  inherited, truthy \<^verbatim>\<open>Object\<close> function, so \<^verbatim>\<open>||\<close> never reaches the default and the
  Reward Issuer is called with that value as \<^verbatim>\<open>homeLocationId\<close>.
\<close>

theorem C10_inherited_property_name_is_not_defaulted:
  "getLocationIdFromName (Some ''Kenkere House'') = Some (JNum 22116)
   \<and> getLocationIdFromName None = Some (JNum 9030)
   \<and> getLocationIdFromName (Some ''Atlantis'') = Some (JNum 9030)
   \<and> getLocationIdFromName (Some ''constructor'') = Some (JInherited ''constructor'')
   \<and> homeLocation (inherited_name_report ! 0) = Some ''constructor''
   \<and> filter is_issuer_call (events (run_step3 CONFIG candidates inherited_name_report calm Map.empty)) =
       [IssuerCall 1 1 (Some (JInherited ''constructor''))]"
  by code_simp

section \<open>Report polling\<close>

text \<open>
  C5. If every status poll within the attempt budget \<^verbatim>\<open>POLL_MAX_ATTEMPTS\<close> answers
  \<^verbatim>\<open>pending\<close>, \<^verbatim>\<open>pollReferralReport\<close> raises the timeout error after exactly
  that many polls, and so returns no item list.
\<close>

theorem C5_pending_until_budget_times_out:
  assumes "\<forall>a. a < POLL_MAX_ATTEMPTS cfg \<longrightarrow>
             (\<exists>r. status_poll cfg srv a = Inr (Some r) \<and> status r = ''pending'')"
  shows "pollReferralReport cfg srv = (Inl PollingTimeout, POLL_MAX_ATTEMPTS cfg)"
proof -
  have "\<forall>k. 0 \<le> k \<and> k < POLL_MAX_ATTEMPTS cfg \<longrightarrow> poll_try (status_poll cfg srv k) = FallsThrough"
  proof (intro allI impI)
    fix k assume "0 \<le> k \<and> k < POLL_MAX_ATTEMPTS cfg"
    with assms obtain r where "status_poll cfg srv k = Inr (Some r)" "status r = ''pending''"
      by blast
    then show "poll_try (status_poll cfg srv k) = FallsThrough" by simp
  qed
  moreover have "0 + POLL_MAX_ATTEMPTS cfg = POLL_MAX_ATTEMPTS cfg" by simp
  ultimately have "poll_from cfg srv 0 0 = (Inl PollingTimeout, 0 + POLL_MAX_ATTEMPTS cfg)"
    by (rule poll_from_all_fall_through)
  then show ?thesis by (simp add: pollReferralReport_def)
qed

theorem C5_witness:
  "(\<forall>a. status_poll CONFIG always_pending a =
          Inr (Some \<lparr>status = ''pending'', reportData_items = Some [], items = None\<rparr>))
   \<and> pollReferralReport CONFIG always_pending = (Inl PollingTimeout, 100)"
proof -
  have e: "\<forall>a. status_poll CONFIG always_pending a =
          Inr (Some \<lparr>status = ''pending'', reportData_items = Some [], items = None\<rparr>)"
    unfolding always_pending_def by (simp add: status_poll_answers)
  then have h: "\<forall>a. a < POLL_MAX_ATTEMPTS CONFIG \<longrightarrow>
      (\<exists>r. status_poll CONFIG always_pending a = Inr (Some r) \<and> status r = (''pending''::string))"
    by simp
  show ?thesis
    using e C5_pending_until_budget_times_out [OF h] by (simp add: CONFIG_def)
qed

text \<open>
  C6. The claim says that a status poll answering \<^verbatim>\<open>failed\<close> ends the polling with
  an error. The error thrown for \<^verbatim>\<open>failed\<close> is caught by the \<^verbatim>\<open>catch\<close> of the same
  iteration, which rethrows only at the last attempt: a server that answers
  \<^verbatim>\<open>failed\<close> and then \<^verbatim>\<open>completed\<close> is polled a second time and its items are
  returned, and a server that always answers \<^verbatim>\<open>failed\<close> is polled 100 times before
  the error is raised.
\<close>

theorem C6_failed_status_does_not_stop_polling:
  "status_poll CONFIG failed_then_completed 0 =
      Inr (Some \<lparr>status = ''failed'', reportData_items = Some [], items = None\<rparr>)
   \<and> pollReferralReport CONFIG failed_then_completed = (Inr [7], 2)
   \<and> pollReferralReport CONFIG always_failed = (Inl ReportFailedOnServer, 100)"
proof -
  have a: "status_poll CONFIG failed_then_completed 0 =
      Inr (Some \<lparr>status = ''failed'', reportData_items = Some [], items = None\<rparr>)"
    by code_simp
  have b: "pollReferralReport CONFIG failed_then_completed = (Inr [7], 2)"
    by code_simp
  have "\<forall>k. 0 \<le> k \<and> k < POLL_MAX_ATTEMPTS CONFIG \<longrightarrow>
           poll_try (status_poll CONFIG always_failed k) = Throws ReportFailedOnServer"
    unfolding always_failed_def by (simp add: status_poll_answers)
  moreover have "0 + Suc 99 = POLL_MAX_ATTEMPTS CONFIG" by (simp add: CONFIG_def)
  ultimately have "poll_from CONFIG always_failed 0 0 = (Inl ReportFailedOnServer, 0 + Suc 99)"
    by (rule poll_from_all_throw)
  then have c: "pollReferralReport CONFIG always_failed = (Inl ReportFailedOnServer, 100)"
    by (simp add: pollReferralReport_def)
  show ?thesis using a b c by simp
qed

section \<open>Retry and backoff\<close>

text \<open>
  C7, as stated, fails: the claim gives the total wait for \<open>N\<close> consecutive failures,
  \<open>N\<close> below the maximum attempt count, as the sum over \<open>k = 1..N-1\<close>. With one
  failed attempt followed by a successful one the executor waits 1000 ms, where that sum
  is 0, and it raises nothing.
\<close>

theorem C7_counterexample:
  "attempt_failed (fails_once 1) \<and> \<not> attempt_failed (fails_once 2)
   \<and> (1::nat) < MAX_RETRIES CONFIG
   \<and> sendRequestWithRetry CONFIG fails_once = (Inr (Some ()), 1000)
   \<and> spec_total_wait CONFIG 1 = 0
   \<and> snd (sendRequestWithRetry CONFIG fails_once) \<noteq> spec_total_wait CONFIG 1"
  by code_simp

text \<open>
  C7, amended. After \<open>N\<close> consecutive failed attempts: if \<open>N\<close> is below the maximum
  attempt count and attempt \<open>N + 1\<close> succeeds, the executor has waited the sum over
  \<open>k = 1..N\<close> of \<open>min(base * 2^(k-1), cap)\<close> and returns the payload; if \<open>N\<close> is
  the maximum attempt count, it has waited the sum over \<open>k = 1..N-1\<close> and raises the
  error of the \<open>N\<close>th attempt.
\<close>

theorem C7_backoff_total_wait:
  assumes "\<forall>k. 1 \<le> k \<and> k \<le> N \<longrightarrow> attempt_failed (net k)"
  shows "(N < MAX_RETRIES cfg \<and> attempt_result (net (Suc N)) = Inr d \<longrightarrow>
            sendRequestWithRetry cfg net =
              (Inr (Some d), \<Sum>k = 1..N. min (INITIAL_RETRY_DELAY cfg * 2 ^ (k - 1)) (MAX_RETRY_DELAY cfg)))
       \<and> (N = MAX_RETRIES cfg \<and> 0 < N \<longrightarrow>
            (\<exists>err. attempt_result (net N) = Inl err \<and>
               sendRequestWithRetry cfg net =
                 (Inl err, \<Sum>k = 1..N - 1. min (INITIAL_RETRY_DELAY cfg * 2 ^ (k - 1)) (MAX_RETRY_DELAY cfg))))"
proof (intro conjI impI)
  assume "N < MAX_RETRIES cfg \<and> attempt_result (net (Suc N)) = Inr d"
  then have "sendRequestWithRetry cfg net = (Inr (Some d), (\<Sum>k = 1..N. delayTime cfg k))"
    using assms by (intro send_failures_then_success) auto
  then show "sendRequestWithRetry cfg net =
      (Inr (Some d), \<Sum>k = 1..N. min (INITIAL_RETRY_DELAY cfg * 2 ^ (k - 1)) (MAX_RETRY_DELAY cfg))"
    by (simp add: delayTime_def)
next
  assume h: "N = MAX_RETRIES cfg \<and> 0 < N"
  then have "attempt_failed (net N)" using assms by simp
  then obtain err where err: "attempt_result (net N) = Inl err"
    unfolding attempt_failed_iff by blast
  have a: "\<forall>k. 1 \<le> k \<and> k \<le> MAX_RETRIES cfg \<longrightarrow> attempt_failed (net k)"
    using assms h by simp
  have b: "0 < MAX_RETRIES cfg" using h by simp
  have c: "attempt_result (net (MAX_RETRIES cfg)) = Inl err" using err h by simp
  have "sendRequestWithRetry cfg net = (Inl err, (\<Sum>k = 1..MAX_RETRIES cfg - 1. delayTime cfg k))"
    using a b c by (rule send_all_fail)
  then have "sendRequestWithRetry cfg net =
      (Inl err, \<Sum>k = 1..N - 1. min (INITIAL_RETRY_DELAY cfg * 2 ^ (k - 1)) (MAX_RETRY_DELAY cfg))"
    using h by (simp add: delayTime_def)
  with err show "\<exists>err. attempt_result (net N) = Inl err \<and>
       sendRequestWithRetry cfg net =
         (Inl err, \<Sum>k = 1..N - 1. min (INITIAL_RETRY_DELAY cfg * 2 ^ (k - 1)) (MAX_RETRY_DELAY cfg))"
    by blast
qed

text \<open>
  The theorem at one failure followed by a success, and at three failures, under
  \<open>CONFIG\<close>.
\<close>

theorem C7_witness:
  "attempt_failed (fails_once 1) \<and> (1::nat) < MAX_RETRIES CONFIG
   \<and> attempt_result (fails_once 2) = Inr ()
   \<and> sendRequestWithRetry CONFIG fails_once = (Inr (Some ()), 1000)
   \<and> attempt_failed (always_rejects 1) \<and> attempt_failed (always_rejects 2)
   \<and> attempt_failed (always_rejects 3) \<and> (3::nat) = MAX_RETRIES CONFIG
   \<and> sendRequestWithRetry CONFIG always_rejects = (Inl (AxiosError ''timeout''), 3000)"
proof -
  have f1: "\<forall>k. 1 \<le> k \<and> k \<le> (1::nat) \<longrightarrow> attempt_failed (fails_once k)"
    by (simp add: fails_once_def attempt_failed_def)
  have f2: "(1::nat) < MAX_RETRIES CONFIG \<and> attempt_result (fails_once (Suc 1)) = Inr ()"
    by code_simp
  have f3: "(\<Sum>k = 1..(1::nat). min (INITIAL_RETRY_DELAY CONFIG * 2 ^ (k - 1)) (MAX_RETRY_DELAY CONFIG)) = 1000"
    by code_simp
  have A: "sendRequestWithRetry CONFIG fails_once = (Inr (Some ()), 1000)"
    using C7_backoff_total_wait [OF f1, of CONFIG "()"] f2 f3 by simp
  have g1: "\<forall>k. 1 \<le> k \<and> k \<le> (3::nat) \<longrightarrow> attempt_failed (always_rejects k)"
    by (simp add: always_rejects_def attempt_failed_def)
  have g2: "(3::nat) = MAX_RETRIES CONFIG \<and> (0::nat) < 3" by code_simp
  have g3: "(\<Sum>k = 1..(3::nat) - 1. min (INITIAL_RETRY_DELAY CONFIG * 2 ^ (k - 1)) (MAX_RETRY_DELAY CONFIG)) = 3000"
    by code_simp
  have g4: "attempt_result (always_rejects 3) = Inl (AxiosError ''timeout'')"
    by (simp add: always_rejects_def)
  have B: "sendRequestWithRetry CONFIG always_rejects = (Inl (AxiosError ''timeout''), 3000)"
    using C7_backoff_total_wait [OF g1, of CONFIG] g2 g3 g4 by auto
  have h: "attempt_failed (fails_once 1)" "attempt_result (fails_once 2) = Inr ()"
    "attempt_failed (always_rejects 1)" "attempt_failed (always_rejects 2)"
    "attempt_failed (always_rejects 3)"
    by code_simp+
  show ?thesis using A B f2 g2 h by simp
qed

end
